theory Spec2Isabelle
  imports Main "HOL-Library.Char_ord" "HOL-Library.List_Lexorder" "HOL-Library.Sublist"
begin

section \<open>The route-cost index of the call-routing tool\<close>

text \<open>
  The Go program keeps one process-wide variable, \<^verbatim>\<open>costs = make(map[string]string)\<close>,
  filled by \<^verbatim>\<open>loadRouteCosts\<close> and read by \<^verbatim>\<open>getCost\<close> and \<^verbatim>\<open>getAllCosts\<close>.
  These are the functions of the main solution (\<^verbatim>\<open>src/unnamed/part_000\<close>);
  \<^verbatim>\<open>src/go_solution/main.go\<close> is an earlier form of the same program, with the functions
  \<^verbatim>\<open>loadFile\<close>, \<^verbatim>\<open>getCost\<close> and \<^verbatim>\<open>getCosts\<close>, modelled beside them.
  A Go string is a sequence of bytes, here a \<^typ>\<open>string\<close> (a list of 8-bit characters):
  \<^verbatim>\<open>len\<close> is \<^const>\<open>length\<close>, the slice \<^verbatim>\<open>s[:i]\<close> for \<open>0 \<le> i \<le> len(s)\<close> is
  \<^term>\<open>take i s\<close>, and \<^verbatim>\<open>v > c\<close> on strings compares byte by byte, a proper prefix being
  the smaller one, which is the lexicographic order of \<^typ>\<open>char list\<close>.
\<close>

type_synonym costs = "string \<rightharpoonup> string"

text \<open>
  The state the modelled functions touch: the global map, the bytes written to the result
  file, and the result lines printed to the terminal (the text handed to the colour
  functions, one entry per \<^verbatim>\<open>print\<close> of a cost).
\<close>

record world =
  costs :: costs
  resultFile :: string
  console :: "string list"

text \<open>
  How a function ends: it runs to its last line, it prints an error and returns early,
  it ends the process (\<^verbatim>\<open>log.Fatalf\<close>), or it panics on an index out of range.
\<close>

datatype outcome = Completed | Returned string | Exited string | Panicked

text \<open>
  One call of \<^verbatim>\<open>reader.Read()\<close> yields a record or an error; \<^verbatim>\<open>io.EOF\<close> is the end of
  the list.
\<close>

datatype read_result = Record "string list" | ReadError string

subsection \<open>Lookup\<close>

text \<open>
  The loop of \<^verbatim>\<open>getCost\<close>,
  \<^verbatim>\<open>for i := len(prefix); i >= 0; i-- { if v, ok := costs[prefix[:i]]; ok { result = v } }\<close>:
  \<open>scanPrefixes pfx i result w\<close> runs it from index \<open>i\<close> down to \<open>0\<close>, \<open>pfx\<close> being
  the parameter \<^verbatim>\<open>prefix\<close>. There is no \<^verbatim>\<open>break\<close> in the body, so every index is
  visited.
\<close>

fun scanPrefixes :: "string \<Rightarrow> nat \<Rightarrow> string \<Rightarrow> world \<Rightarrow> string \<times> world" where
  "scanPrefixes pfx 0 result w =
     (case costs w (take 0 pfx) of Some v \<Rightarrow> (v, w) | None \<Rightarrow> (result, w))"
| "scanPrefixes pfx (Suc i) result w =
     (case costs w (take (Suc i) pfx) of
        Some v \<Rightarrow> scanPrefixes pfx i v w
      | None \<Rightarrow> scanPrefixes pfx i result w)"

definition getCost :: "string \<Rightarrow> world \<Rightarrow> string \<times> world" where
  "getCost pfx w = scanPrefixes pfx (length pfx) ''0'' w"

text \<open>
  The two formats of a result: \<^verbatim>\<open>fmt.Sprintf("%s,%s\n", row[0], cost)\<close> for the result
  file and \<^verbatim>\<open>fmt.Sprintf("%s : %s", row[0], cost)\<close> for the terminal.
\<close>

definition exportLine :: "string \<Rightarrow> string \<Rightarrow> string" where
  "exportLine number cost = number @ '','' @ cost @ [CHR 0x0A]"

definition consoleLine :: "string \<Rightarrow> string \<Rightarrow> string" where
  "consoleLine number cost = number @ '' : '' @ cost"

text \<open>
  \<^verbatim>\<open>getCost()\<close> of \<^verbatim>\<open>go_solution/main.go\<close> takes the number from the terminal
  (\<open>input\<close> here), runs the same loop and prints \<^verbatim>\<open>fmt.Sprintf("%s : %s", input, result)\<close>.
\<close>

definition getCost_main :: "string \<Rightarrow> world \<Rightarrow> world" where
  "getCost_main input w =
     (case scanPrefixes input (length input) ''0'' w of
        (result, w1) \<Rightarrow> w1\<lparr>console := console w1 @ [consoleLine input result]\<rparr>)"

subsection \<open>Loading\<close>

text \<open>
  The body of the loading loop for a record with at least two fields:
  \<^verbatim>\<open>if v, ok := costs[row[0]]; (ok && v > row[1]) || !ok { costs[row[0]] = row[1] }\<close>.
\<close>

definition insertRow :: "string list \<Rightarrow> world \<Rightarrow> world" where
  "insertRow row w =
     (case costs w (row ! 0) of
        Some v \<Rightarrow> if v > row ! 1 then w\<lparr>costs := (costs w)(row ! 0 \<mapsto> row ! 1)\<rparr> else w
      | None \<Rightarrow> w\<lparr>costs := (costs w)(row ! 0 \<mapsto> row ! 1)\<rparr>)"

text \<open>
  The loop of \<^verbatim>\<open>loadRouteCosts\<close>. A read error prints the error and returns. Both
  \<^verbatim>\<open>row[0]\<close> and \<^verbatim>\<open>row[1]\<close> are evaluated before the map is written, so a record with
  fewer than two fields panics with the map as it was.
\<close>

fun loadRouteCosts :: "read_result list \<Rightarrow> world \<Rightarrow> outcome \<times> world" where
  "loadRouteCosts [] w = (Completed, w)"
| "loadRouteCosts (ReadError e # rest) w = (Returned e, w)"
| "loadRouteCosts (Record row # rest) w =
     (if length row < 2 then (Panicked, w) else loadRouteCosts rest (insertRow row w))"

text \<open>
  \<^verbatim>\<open>loadFile\<close> of \<^verbatim>\<open>go_solution/main.go\<close> has the same loop, with \<^verbatim>\<open>log.Fatalf\<close> on a
  read error.
\<close>

fun loadFile :: "read_result list \<Rightarrow> world \<Rightarrow> outcome \<times> world" where
  "loadFile [] w = (Completed, w)"
| "loadFile (ReadError e # rest) w = (Exited e, w)"
| "loadFile (Record row # rest) w =
     (if length row < 2 then (Panicked, w) else loadFile rest (insertRow row w))"

text \<open>
  The menu loop of \<^verbatim>\<open>main\<close> calls \<^verbatim>\<open>loadRouteCosts\<close> once for every choice of entry 1:
  \<open>loadEach files w\<close> is the state after loading the given files one after the other.
\<close>

definition loadEach :: "read_result list list \<Rightarrow> world \<Rightarrow> world" where
  "loadEach files w = fold (\<lambda>rows w'. snd (loadRouteCosts rows w')) files w"

subsection \<open>Batch lookup\<close>

text \<open>
  The loop of \<^verbatim>\<open>getAllCosts\<close>: a read error prints the error and returns; otherwise the
  cost of \<^verbatim>\<open>row[0]\<close> is looked up and either written to the result file or printed.
  The result file is a string that only grows, so a failing \<^verbatim>\<open>WriteString\<close> is outside
  the model.
\<close>

fun getAllCostsLoop :: "bool \<Rightarrow> read_result list \<Rightarrow> world \<Rightarrow> outcome \<times> world" where
  "getAllCostsLoop persist [] w = (Completed, w)"
| "getAllCostsLoop persist (ReadError e # rest) w = (Returned e, w)"
| "getAllCostsLoop persist (Record row # rest) w =
     (if row = [] then (Panicked, w)
      else case getCost (row ! 0) w of
        (cost, w1) \<Rightarrow>
          if persist
          then getAllCostsLoop persist rest
                 (w1\<lparr>resultFile := resultFile w1 @ exportLine (row ! 0) cost\<rparr>)
          else getAllCostsLoop persist rest
                 (w1\<lparr>console := console w1 @ [consoleLine (row ! 0) cost]\<rparr>))"

text \<open>
  \<^verbatim>\<open>getAllCosts\<close>: with \<^verbatim>\<open>persist\<close> the result file is created first
  (\<^verbatim>\<open>os.Create\<close> empties an existing one), then the loop runs.
\<close>

definition getAllCosts :: "bool \<Rightarrow> read_result list \<Rightarrow> world \<Rightarrow> outcome \<times> world" where
  "getAllCosts persist rows w =
     getAllCostsLoop persist rows (if persist then w\<lparr>resultFile := []\<rparr> else w)"

text \<open>
  \<^verbatim>\<open>getCosts\<close> of \<^verbatim>\<open>go_solution/main.go\<close> has the lookup loop written out in its body
  and ends the process on a read error.
\<close>

fun getCostsLoop :: "bool \<Rightarrow> read_result list \<Rightarrow> world \<Rightarrow> outcome \<times> world" where
  "getCostsLoop persist [] w = (Completed, w)"
| "getCostsLoop persist (ReadError e # rest) w = (Exited e, w)"
| "getCostsLoop persist (Record row # rest) w =
     (if row = [] then (Panicked, w)
      else case scanPrefixes (row ! 0) (length (row ! 0)) ''0'' w of
        (result, w1) \<Rightarrow>
          if persist
          then getCostsLoop persist rest
                 (w1\<lparr>resultFile := resultFile w1 @ exportLine (row ! 0) result\<rparr>)
          else getCostsLoop persist rest
                 (w1\<lparr>console := console w1 @ [consoleLine (row ! 0) result]\<rparr>))"

definition getCosts :: "bool \<Rightarrow> read_result list \<Rightarrow> world \<Rightarrow> outcome \<times> world" where
  "getCosts persist rows w =
     getCostsLoop persist rows (if persist then w\<lparr>resultFile := []\<rparr> else w)"

subsection \<open>The reader's field count\<close>

text \<open>
  Both loaders use \<^verbatim>\<open>csv.NewReader\<close> with its default \<^verbatim>\<open>FieldsPerRecord = 0\<close>: the
  first record fixes the number of fields, and \<^verbatim>\<open>Read\<close> reports \<^verbatim>\<open>ErrFieldCount\<close> for
  every later record with another number. \<open>csvRead None ls\<close> gives the results of the
  successive calls of \<^verbatim>\<open>Read\<close> on a file whose lines split into the fields \<open>ls\<close>.
\<close>

fun csvRead :: "nat option \<Rightarrow> string list list \<Rightarrow> read_result list" where
  "csvRead n [] = []"
| "csvRead None (line # rest) = Record line # csvRead (Some (length line)) rest"
| "csvRead (Some n) (line # rest) =
     (if length line = n then Record line else ReadError ''wrong number of fields'')
       # csvRead (Some n) rest"

subsection \<open>Inputs used in the statements\<close>

definition emptyWorld :: world where
  "emptyWorld = \<lparr>costs = Map.empty, resultFile = [], console = []\<rparr>"

text \<open>A carrier-table record \<open>prefix,cost\<close> as the reader returns it.\<close>

definition routeRecord :: "string \<times> string \<Rightarrow> read_result" where
  "routeRecord r = Record [fst r, snd r]"

text \<open>A line of a phone-numbers file as the reader returns it.\<close>

definition numberRecord :: "string \<Rightarrow> read_result" where
  "numberRecord n = Record [n]"

text \<open>
  The costs that compete for a key: the one the index holds for it, if any, and those of
  the records for that key.
\<close>

definition candidates :: "string \<Rightarrow> (string \<times> string) list \<Rightarrow> world \<Rightarrow> string set" where
  "candidates k rs w = set_option (costs w k) \<union> {c. (k, c) \<in> set rs}"

text \<open>The index of the longest-prefix example: three nested prefixes of one number.\<close>

definition nestedIndex :: world where
  "nestedIndex = emptyWorld\<lparr>costs :=
     [''+1'' \<mapsto> ''0.05'', ''+1415'' \<mapsto> ''0.02'', ''+1415234'' \<mapsto> ''0.03'']\<rparr>"

section \<open>Lookup\<close>

subsection \<open>What the scan returns\<close>

lemma scanPrefixes_world: "snd (scanPrefixes pfx i result w) = w"
  by (induction i arbitrary: result) (auto split: option.splits)

text \<open>When no visited slice is a key, the initial result comes back.\<close>

lemma scanPrefixes_none:
  "(\<And>j. j \<le> i \<Longrightarrow> costs w (take j pfx) = None) \<Longrightarrow>
   fst (scanPrefixes pfx i result w) = result"
proof (induction i arbitrary: result)
  case 0
  then show ?case by simp
next
  case (Suc i)
  have "costs w (take (Suc i) pfx) = None"
    using Suc.prems [of "Suc i"] by simp
  moreover have "fst (scanPrefixes pfx i result w) = result"
    using Suc.IH Suc.prems by simp
  ultimately show ?case by simp
qed

text \<open>
  Every hit overwrites \<open>result\<close> and the scan goes on, so the value that survives is
  the one of the last slice visited that is a key: the shortest one.
\<close>

lemma scanPrefixes_shortest:
  "j \<le> i \<Longrightarrow> costs w (take j pfx) = Some v \<Longrightarrow>
   (\<And>k. k < j \<Longrightarrow> costs w (take k pfx) = None) \<Longrightarrow>
   fst (scanPrefixes pfx i result w) = v"
proof (induction i arbitrary: result)
  case 0
  then show ?case by simp
next
  case (Suc i)
  show ?case
  proof (cases "j = Suc i")
    case True
    have "fst (scanPrefixes pfx i v w) = v"
      using Suc.prems(3) True by (intro scanPrefixes_none) simp
    then show ?thesis
      using Suc.prems(2) True by simp
  next
    case False
    then have "j \<le> i"
      using Suc.prems(1) by simp
    then have "fst (scanPrefixes pfx i r w) = v" for r
      using Suc.IH Suc.prems(2,3) by blast
    then show ?thesis
      by (simp split: option.splits)
  qed
qed

lemma scanPrefixes_empty_key:
  "costs w [] = Some c \<Longrightarrow> fst (scanPrefixes pfx i result w) = c"
  using scanPrefixes_shortest [of 0 i w pfx c result] by simp

lemma prefix_take_iff: "prefix q n \<longleftrightarrow> (\<exists>j\<le>length n. q = take j n)"
  by (metis prefix_def append_eq_conv_conj length_append le_add1 take_is_prefix)

lemma getCost_shortest_match:
  "j \<le> length n \<Longrightarrow> costs w (take j n) = Some v \<Longrightarrow>
   (\<And>k. k < j \<Longrightarrow> costs w (take k n) = None) \<Longrightarrow>
   getCost n w = (v, w)"
  using scanPrefixes_shortest [of j "length n" w n v "''0''"] scanPrefixes_world [of n "length n" "''0''" w]
  by (simp add: getCost_def prod_eq_iff)

lemma scanPrefixes_costs_only:
  "costs w' = costs w \<Longrightarrow> fst (scanPrefixes pfx i result w') = fst (scanPrefixes pfx i result w)"
  by (induction i arbitrary: result) (auto split: option.splits)

lemma getCost_pair: "getCost n w = (fst (getCost n w), w)"
  by (simp add: getCost_def prod_eq_iff scanPrefixes_world)

lemma getCost_costs_only: "costs w' = costs w \<Longrightarrow> fst (getCost n w') = fst (getCost n w)"
  unfolding getCost_def by (rule scanPrefixes_costs_only)

text \<open>Nothing stored along the number: the initial \<open>0\<close> is returned.\<close>

lemma getCost_no_prefix_stored:
  "(\<And>q. prefix q n \<Longrightarrow> costs w q = None) \<Longrightarrow> getCost n w = (''0'', w)"
proof -
  assume none: "\<And>q. prefix q n \<Longrightarrow> costs w q = None"
  have "costs w (take j n) = None" for j
    by (rule none) (rule take_is_prefix)
  then have "fst (scanPrefixes n (length n) ''0'' w) = ''0''"
    by (intro scanPrefixes_none) simp
  then show ?thesis
    by (simp add: getCost_def prod_eq_iff scanPrefixes_world)
qed

text \<open>The interactive lookup of \<^verbatim>\<open>go_solution/main.go\<close> prints what \<open>getCost\<close> returns.\<close>

lemma getCost_main_getCost:
  "getCost_main input w = w\<lparr>console := console w @ [consoleLine input (fst (getCost input w))]\<rparr>"
  using scanPrefixes_world [of input "length input" "''0''" w]
  by (auto simp: getCost_main_def getCost_def split: prod.splits)

subsection \<open>The longest-prefix example\<close>

text \<open>
  Claim C1: lookup returns the cost of the longest stored prefix of the number; on the
  index \<open>+1: 0.05, +1415: 0.02, +1415234: 0.03\<close> the numbers \<open>+14152345678\<close>,
  \<open>+14159990000\<close>, \<open>+19998887777\<close> and \<open>+447911123456\<close> cost \<open>0.03\<close>, \<open>0.02\<close>,
  \<open>0.05\<close> and \<open>0\<close>.

  The code does not do this. Its loop has no \<^verbatim>\<open>break\<close>, so a shorter stored prefix
  overwrites the result of a longer one: the first two numbers come out at \<open>0.05\<close>, the
  cost of \<open>+1\<close>. The comments on \<^verbatim>\<open>getCost\<close> ("searching the costs map for the longest
  matching prefix", "find longest matching prefix") ask for what the claim says.
\<close>

theorem getCost_nested_index_shortest_wins:
  "fst (getCost ''+14152345678'' nestedIndex) = ''0.05'' \<and>
   fst (getCost ''+14159990000'' nestedIndex) = ''0.05'' \<and>
   fst (getCost ''+19998887777'' nestedIndex) = ''0.05'' \<and>
   fst (getCost ''+447911123456'' nestedIndex) = ''0''"
  by (simp add: getCost_def nestedIndex_def emptyWorld_def)

subsection \<open>No match\<close>

text \<open>
  Claim C7: lookup never fails and yields the sentinel \<open>0\<close> when nothing matches. For every
  string, digits or not, empty or not, if no prefix of it is a key of the index then
  \<open>getCost\<close> returns \<open>0\<close>; on the empty index it returns \<open>0\<close> for every string.
  \<open>getCost\<close> is a total function: the slices \<^verbatim>\<open>prefix[:i]\<close> it takes all have
  \<open>0 \<le> i \<le> len(prefix)\<close>, and a map read has no failure.
\<close>

theorem getCost_no_match_sentinel:
  "((\<forall>q. prefix q query \<longrightarrow> costs w q = None) \<longrightarrow> getCost query w = (''0'', w)) \<and>
   (costs w = Map.empty \<longrightarrow> getCost query w = (''0'', w))"
proof -
  have "getCost query w = (''0'', w)" if "\<forall>q. prefix q query \<longrightarrow> costs w q = None"
    using that by (intro getCost_no_prefix_stored) blast
  then show ?thesis by simp
qed

theorem getCost_no_match_sentinel_witness:
  "list_all (\<lambda>q. costs nestedIndex q = None) (prefixes ''+447911123456'') \<and>
   getCost ''+447911123456'' nestedIndex = (''0'', nestedIndex) \<and>
   costs emptyWorld = Map.empty \<and> getCost ''12ab'' emptyWorld = (''0'', emptyWorld)"
proof -
  have h: "\<forall>q. prefix q ''+447911123456'' \<longrightarrow> costs nestedIndex q = None"
    by (auto simp: prefix_Cons nestedIndex_def emptyWorld_def)
  have e: "costs emptyWorld = Map.empty"
    by (simp add: emptyWorld_def)
  have l: "list_all (\<lambda>q. costs nestedIndex q = None) (prefixes ''+447911123456'')"
    using h by (simp add: list_all_iff)
  show ?thesis
    using h e l getCost_no_match_sentinel [of "''+447911123456''" nestedIndex]
      getCost_no_match_sentinel [of "''12ab''" emptyWorld]
    by blast
qed

subsection \<open>Lookup leaves the index alone\<close>

text \<open>
  Claim C8: lookup is read-only. For every index and every string, the state after
  \<open>getCost\<close> is the state before it: the same keys with the same costs (and nothing
  written or printed).
\<close>

theorem getCost_read_only: "snd (getCost query w) = w"
  by (simp add: getCost_def scanPrefixes_world)

subsection \<open>The empty prefix\<close>

text \<open>
  Claim C10: the scan goes down to index \<open>0\<close>, so the empty string is a candidate. When
  the empty string is a key with cost \<open>c\<close> and no non-empty prefix of the number is a
  key, \<open>getCost\<close> returns \<open>c\<close>, not the sentinel: a loaded record with an empty prefix
  field answers for every number that nothing else matches.
\<close>

theorem getCost_empty_prefix_fallback:
  "costs w [] = Some c \<Longrightarrow> (\<forall>q. q \<noteq> [] \<and> prefix q query \<longrightarrow> costs w q = None) \<Longrightarrow>
   fst (getCost query w) = c"
  by (simp add: getCost_def scanPrefixes_empty_key)

theorem getCost_empty_prefix_fallback_witness:
  "costs (snd (loadRouteCosts [Record ['''', ''0.07'']] nestedIndex)) [] = Some ''0.07'' \<and>
   list_all (\<lambda>q. costs (snd (loadRouteCosts [Record ['''', ''0.07'']] nestedIndex)) q = None)
     (tl (prefixes ''+44791'')) \<and>
   fst (getCost ''+44791'' (snd (loadRouteCosts [Record ['''', ''0.07'']] nestedIndex))) = ''0.07''"
proof -
  let ?w = "snd (loadRouteCosts [Record ['''', ''0.07'']] nestedIndex)"
  have a: "costs ?w [] = Some ''0.07''"
    by (simp add: insertRow_def nestedIndex_def emptyWorld_def)
  have b: "\<forall>q. q \<noteq> [] \<and> prefix q ''+44791'' \<longrightarrow> costs ?w q = None"
    by (auto simp: prefix_Cons insertRow_def nestedIndex_def emptyWorld_def)
  have l: "list_all (\<lambda>q. costs ?w q = None) (tl (prefixes ''+44791''))"
    by (simp add: insertRow_def nestedIndex_def emptyWorld_def)
  show ?thesis
    using a l getCost_empty_prefix_fallback [OF a b] by blast
qed

section \<open>Loading\<close>

subsection \<open>One record\<close>

text \<open>
  The test \<^verbatim>\<open>v > row[1]\<close> compares two strings, so a record replaces the stored cost when it
  is the smaller one in the byte order of strings: the key ends up with \<open>min\<close> in that
  order.
\<close>

lemma insertRow_min:
  "insertRow row w = w\<lparr>costs := (costs w)(row ! 0 \<mapsto>
      (case costs w (row ! 0) of None \<Rightarrow> row ! 1 | Some v \<Rightarrow> min v (row ! 1)))\<rparr>"
  by (auto simp: insertRow_def min_def fun_upd_idem split: option.splits)

lemma insertRow_frame:
  "resultFile (insertRow row w) = resultFile w" "console (insertRow row w) = console w"
  by (simp_all add: insertRow_min)

subsection \<open>A file of records\<close>

lemma loadRouteCosts_records:
  "\<forall>row \<in> set rows. 2 \<le> length row \<Longrightarrow>
   loadRouteCosts (map Record rows) w = (Completed, fold insertRow rows w)"
  by (induction rows arbitrary: w) auto

lemma loadFile_records:
  "\<forall>row \<in> set rows. 2 \<le> length row \<Longrightarrow>
   loadFile (map Record rows) w = (Completed, fold insertRow rows w)"
  by (induction rows arbitrary: w) auto

subsection \<open>What a key holds after a load\<close>

lemma finite_candidates: "finite (candidates k rs w)"
proof -
  have "{c. (k, c) \<in> set rs} \<subseteq> snd ` set rs" by force
  then have "finite {c. (k, c) \<in> set rs}" by (rule finite_subset) simp
  then show ?thesis by (simp add: candidates_def)
qed

lemma Min_insert_min:
  fixes a :: "'a::linorder"
  shows "finite R \<Longrightarrow> Min (insert (min a b) R) = Min (insert a (insert b R))"
  by (cases "R = {}") (simp_all add: min.assoc)

lemma fold_insertRow_costs:
  "costs (fold insertRow (map (\<lambda>r. [fst r, snd r]) rs) w) k =
     (if candidates k rs w = {} then None else Some (Min (candidates k rs w)))"
proof (induction rs arbitrary: w)
  case Nil
  then show ?case by (cases "costs w k") (simp_all add: candidates_def)
next
  case (Cons r rs)
  obtain p c where r: "r = (p, c)" by (cases r)
  let ?w = "insertRow [p, c] w"
  have fin: "finite {c. (k, c) \<in> set rs}"
    using finite_candidates [of k rs w] by (simp add: candidates_def)
  have "candidates k rs ?w \<noteq> {} \<and> candidates k (r # rs) w \<noteq> {} \<and> Min (candidates k rs ?w) = Min (candidates k (r # rs) w)
       \<or> candidates k rs ?w = {} \<and> candidates k (r # rs) w = {}"
  proof (cases "k = p")
    case False
    then have "candidates k rs ?w = candidates k (r # rs) w"
      by (auto simp: candidates_def r insertRow_min)
    then show ?thesis by auto
  next
    case True
    show ?thesis
    proof (cases "costs w p")
      case None
      then have "candidates k rs ?w = candidates k (r # rs) w"
        using True by (auto simp: candidates_def r insertRow_min)
      moreover have "candidates k (r # rs) w \<noteq> {}"
        using True by (auto simp: candidates_def r)
      ultimately show ?thesis by auto
    next
      case (Some v)
      have 1: "candidates k rs ?w = insert (min v c) {c. (k, c) \<in> set rs}"
        using True Some by (auto simp: candidates_def r insertRow_min)
      have 2: "candidates k (r # rs) w = insert v (insert c {c. (k, c) \<in> set rs})"
        using True Some by (auto simp: candidates_def r)
      show ?thesis unfolding 1 2 using Min_insert_min [OF fin] by simp
    qed
  qed
  then show ?case using Cons.IH [of ?w] by (auto simp: r)
qed

lemma fold_insertRow_frame:
  "fold insertRow rows w = w\<lparr>costs := costs (fold insertRow rows w)\<rparr>"
proof (induction rows arbitrary: w)
  case Nil
  show ?case by simp
next
  case (Cons row rows)
  have "fold insertRow rows (insertRow row w) =
        (insertRow row w)\<lparr>costs := costs (fold insertRow rows (insertRow row w))\<rparr>"
    by (rule Cons.IH)
  also have "\<dots> = w\<lparr>costs := costs (fold insertRow rows (insertRow row w))\<rparr>"
    by (simp add: insertRow_min)
  finally show ?case by simp
qed

lemma routeRecords_load:
  "loadRouteCosts (map routeRecord rs) w = (Completed, fold insertRow (map (\<lambda>r. [fst r, snd r]) rs) w)"
  by (induction rs arbitrary: w) (simp_all add: routeRecord_def)

lemma loadEach_routeRecords:
  "loadEach (map (map routeRecord) files) w = fold insertRow (map (\<lambda>r. [fst r, snd r]) (concat files)) w"
proof (induction files arbitrary: w)
  case Nil
  show ?case by (simp add: loadEach_def)
next
  case (Cons f files)
  have "loadEach (map (map routeRecord) (f # files)) w =
        loadEach (map (map routeRecord) files) (snd (loadRouteCosts (map routeRecord f) w))"
    by (simp add: loadEach_def)
  then show ?case by (simp add: Cons.IH routeRecords_load)
qed

lemma loadEach_same_records:
  assumes "set (concat files1) = set (concat files2)"
  shows "loadEach (map (map routeRecord) files1) w = loadEach (map (map routeRecord) files2) w"
proof -
  let ?f = "\<lambda>files. fold insertRow (map (\<lambda>r. [fst r, snd r]) (concat files)) w"
  have "candidates k (concat files1) w = candidates k (concat files2) w" for k
    using assms by (simp add: candidates_def)
  then have "costs (?f files1) k = costs (?f files2) k" for k
    by (simp add: fold_insertRow_costs)
  then have "costs (?f files1) = costs (?f files2)" by (rule ext)
  then have "?f files1 = ?f files2"
    using fold_insertRow_frame [of "map (\<lambda>r. [fst r, snd r]) (concat files1)" w]
      fold_insertRow_frame [of "map (\<lambda>r. [fst r, snd r]) (concat files2)" w]
    by simp
  then show ?thesis by (simp add: loadEach_routeRecords)
qed

subsection \<open>Order of loading\<close>

text \<open>
  Claim C5: loading is order-independent. When two sequences of files hold the same set of
  \<open>(prefix, cost)\<close> records, in any order, with any record repeated and the records
  split over the files in any way, loading one sequence and loading the other give
  indexes on which \<open>getCost\<close> returns the same value for every string.
\<close>

theorem load_order_independent:
  "set (concat files1) = set (concat files2) \<Longrightarrow>
   fst (getCost query (loadEach (map (map routeRecord) files1) w)) =
   fst (getCost query (loadEach (map (map routeRecord) files2) w))"
  by (simp add: loadEach_same_records [of files1 files2 w])

theorem load_order_independent_witness:
  "fst (getCost ''+14150000'' (loadEach (map (map routeRecord)
      [[(''+1'', ''0.05''), (''+1415'', ''0.02'')], [(''+1'', ''0.03'')]]) emptyWorld)) =
   fst (getCost ''+14150000'' (loadEach (map (map routeRecord)
      [[(''+1'', ''0.03''), (''+1'', ''0.05'')], [(''+1415'', ''0.02''), (''+1'', ''0.03''), (''+1'', ''0.05'')]]) emptyWorld))"
proof -
  have "set (concat [[(''+1'', ''0.05''), (''+1415'', ''0.02'')], [(''+1'', ''0.03'')]]) =
        set (concat [[(''+1'', ''0.03''), (''+1'', ''0.05'')], [(''+1415'', ''0.02''), (''+1'', ''0.03''), (''+1'', ''0.05'')]])"
    by auto
  then show ?thesis by (rule load_order_independent)
qed

subsection \<open>The same record twice\<close>

text \<open>
  Claim C9: insertion with merge is idempotent. Loading a record \<open>(p, c)\<close> twice in
  succession gives the same outcome and the same state, keys and costs, as loading it
  once.
\<close>

theorem insert_twice_same:
  "loadRouteCosts [routeRecord (p, c), routeRecord (p, c)] w = loadRouteCosts [routeRecord (p, c)] w"
  by (cases "costs w p") (simp_all add: routeRecord_def insertRow_min)

subsection \<open>Costs with different numbers of digits\<close>

text \<open>
  Claim C2: after the insertions of \<open>c1, \<dots>, cn\<close> for a prefix, the cost stored for it is
  the numeric minimum of the decimal values.

  The code keeps the smallest string, not the smallest number. For costs written with the
  same number of integer digits the two agree; for \<open>9\<close> and \<open>10\<close> they do not, since
  \<open>10\<close> is before \<open>9\<close> in byte order: in either order of loading the key \<open>+1\<close> ends
  up at \<open>10\<close>. The comment on the test ("its cost is less than current cost in costs
  map") asks for the cheaper cost, as the claim does.
\<close>

theorem merge_keeps_bytewise_smaller:
  "costs (snd (loadRouteCosts [routeRecord (''+1'', ''9''), routeRecord (''+1'', ''10'')] emptyWorld)) ''+1'' = Some ''10'' \<and>
   costs (snd (loadRouteCosts [routeRecord (''+1'', ''10''), routeRecord (''+1'', ''9'')] emptyWorld)) ''+1'' = Some ''10''"
  by (simp add: routeRecord_def insertRow_def emptyWorld_def)

subsection \<open>A record the reader rejects\<close>

lemma loadRouteCosts_append_records:
  "\<forall>row \<in> set rows. 2 \<le> length row \<Longrightarrow>
   loadRouteCosts (map Record rows @ rest) w = loadRouteCosts rest (fold insertRow rows w)"
  by (induction rows arbitrary: w) auto

lemma loadFile_append_records:
  "\<forall>row \<in> set rows. 2 \<le> length row \<Longrightarrow>
   loadFile (map Record rows @ rest) w = loadFile rest (fold insertRow rows w)"
  by (induction rows arbitrary: w) auto

lemma loadFile_state: "snd (loadFile rs w) = snd (loadRouteCosts rs w)"
  by (induction rs w rule: loadRouteCosts.induct) auto

text \<open>Records with the field count of the first one are all returned.\<close>

lemma csvRead_same_count:
  "\<forall>l \<in> set ls. length l = n \<Longrightarrow> csvRead (Some n) (ls @ rest) = map Record ls @ csvRead (Some n) rest"
  by (induction ls) auto

text \<open>
  Claim C3, as the code has it: the records of a file are merged in file order, whatever
  their text (a cost that is no number and a prefix without the leading \<open>+\<close> are merged
  like any other record), until the reader reports an error, which it does for a record
  whose number of fields differs from the first record's. There the load stops: the
  records before it are in the index, the records after it are not read.
  \<^verbatim>\<open>loadRouteCosts\<close> prints the error and returns, \<^verbatim>\<open>loadFile\<close> ends the process.
\<close>

theorem load_stops_at_first_read_error:
  "\<forall>row \<in> set rows. 2 \<le> length row \<Longrightarrow>
   loadRouteCosts (map Record rows) w = (Completed, fold insertRow rows w) \<and>
   loadRouteCosts (map Record rows @ ReadError e # rest) w = (Returned e, fold insertRow rows w) \<and>
   loadFile (map Record rows @ ReadError e # rest) w = (Exited e, fold insertRow rows w)"
  by (simp add: loadRouteCosts_records loadRouteCosts_append_records loadFile_append_records)

theorem load_stops_at_first_read_error_witness:
  "loadRouteCosts (csvRead None [[''+1'', ''0.05''], [''1415'', ''abc''], [''+1415234''], [''+44'', ''0.10'']]) emptyWorld =
     (Returned ''wrong number of fields'', emptyWorld\<lparr>costs := [''+1'' \<mapsto> ''0.05'', ''1415'' \<mapsto> ''abc'']\<rparr>) \<and>
   loadRouteCosts (csvRead None [[''+1'', ''0.05''], [''1415'', ''abc'']]) emptyWorld =
     (Completed, emptyWorld\<lparr>costs := [''+1'' \<mapsto> ''0.05'', ''1415'' \<mapsto> ''abc'']\<rparr>)"
proof -
  let ?rows = "[[''+1'', ''0.05''], [''1415'', ''abc'']]"
  have h: "\<forall>row \<in> set ?rows. 2 \<le> length row" by simp
  have f: "fold insertRow ?rows emptyWorld = emptyWorld\<lparr>costs := [''+1'' \<mapsto> ''0.05'', ''1415'' \<mapsto> ''abc'']\<rparr>"
    by (simp add: insertRow_def emptyWorld_def)
  show ?thesis
    using load_stops_at_first_read_error [OF h, of emptyWorld "''wrong number of fields''" "[Record [''+44'', ''0.10'']]"] f
    by simp
qed

text \<open>
  The claim as written says that loading continues after a malformed record. On a file of
  three lines whose second line has one field, the third line \<open>+44,0.10\<close> never reaches
  the index, and \<^verbatim>\<open>loadFile\<close> ends the process; on a file with a cost \<open>abc\<close> and a prefix
  \<open>1415\<close> nothing is rejected.
\<close>

theorem load_abandons_rest_of_file:
  "csvRead None [[''+1'', ''0.05''], [''+1415''], [''+44'', ''0.10'']] =
     [Record [''+1'', ''0.05''], ReadError ''wrong number of fields'', Record [''+44'', ''0.10'']] \<and>
   fst (loadRouteCosts (csvRead None [[''+1'', ''0.05''], [''+1415''], [''+44'', ''0.10'']]) emptyWorld)
     = Returned ''wrong number of fields'' \<and>
   costs (snd (loadRouteCosts (csvRead None [[''+1'', ''0.05''], [''+1415''], [''+44'', ''0.10'']]) emptyWorld)) ''+44''
     = None \<and>
   fst (loadFile (csvRead None [[''+1'', ''0.05''], [''+1415''], [''+44'', ''0.10'']]) emptyWorld)
     = Exited ''wrong number of fields'' \<and>
   costs (snd (loadRouteCosts (csvRead None [[''+1'', ''abc''], [''1415'', ''0.02'']]) emptyWorld)) ''+1'' = Some ''abc'' \<and>
   costs (snd (loadRouteCosts (csvRead None [[''+1'', ''abc''], [''1415'', ''0.02'']]) emptyWorld)) ''1415'' = Some ''0.02''"
  by (simp add: insertRow_def emptyWorld_def)

section \<open>Batch lookup\<close>

subsection \<open>The loop over the records read\<close>

lemma getAllCostsLoop_step:
  "row \<noteq> [] \<Longrightarrow> getAllCostsLoop persist (Record row # rest) w =
     getAllCostsLoop persist rest
       (if persist then w\<lparr>resultFile := resultFile w @ exportLine (row ! 0) (fst (getCost (row ! 0) w))\<rparr>
        else w\<lparr>console := console w @ [consoleLine (row ! 0) (fst (getCost (row ! 0) w))]\<rparr>)"
proof -
  obtain c where c: "getCost (row ! 0) w = (c, w)"
    using getCost_pair by blast
  assume "row \<noteq> []"
  then show ?thesis by (simp add: c)
qed

lemma getAllCostsLoop_export:
  "\<forall>row \<in> set rows. row \<noteq> [] \<Longrightarrow>
   getAllCostsLoop True (map Record rows @ rest) w =
     getAllCostsLoop True rest
       (w\<lparr>resultFile := resultFile w @
           concat (map (\<lambda>row. exportLine (row ! 0) (fst (getCost (row ! 0) w))) rows)\<rparr>)"
proof (induction rows arbitrary: w)
  case Nil
  show ?case by simp
next
  case (Cons row rows)
  let ?w = "w\<lparr>resultFile := resultFile w @ exportLine (row ! 0) (fst (getCost (row ! 0) w))\<rparr>"
  have c: "fst (getCost n ?w) = fst (getCost n w)" for n
    by (rule getCost_costs_only) simp
  have "getAllCostsLoop True (map Record (row # rows) @ rest) w =
        getAllCostsLoop True (map Record rows @ rest) ?w"
    using Cons.prems by (simp add: getAllCostsLoop_step del: getAllCostsLoop.simps)
  also have "\<dots> = getAllCostsLoop True rest
       (?w\<lparr>resultFile := resultFile ?w @
           concat (map (\<lambda>row. exportLine (row ! 0) (fst (getCost (row ! 0) ?w))) rows)\<rparr>)"
    using Cons.prems by (intro Cons.IH) simp
  finally show ?case by (simp add: c)
qed

lemma getAllCostsLoop_print:
  "\<forall>row \<in> set rows. row \<noteq> [] \<Longrightarrow>
   getAllCostsLoop False (map Record rows @ rest) w =
     getAllCostsLoop False rest
       (w\<lparr>console := console w @
           map (\<lambda>row. consoleLine (row ! 0) (fst (getCost (row ! 0) w))) rows\<rparr>)"
proof (induction rows arbitrary: w)
  case Nil
  show ?case by simp
next
  case (Cons row rows)
  let ?w = "w\<lparr>console := console w @ [consoleLine (row ! 0) (fst (getCost (row ! 0) w))]\<rparr>"
  have c: "fst (getCost n ?w) = fst (getCost n w)" for n
    by (rule getCost_costs_only) simp
  have "getAllCostsLoop False (map Record (row # rows) @ rest) w =
        getAllCostsLoop False (map Record rows @ rest) ?w"
    using Cons.prems by (simp add: getAllCostsLoop_step del: getAllCostsLoop.simps)
  also have "\<dots> = getAllCostsLoop False rest
       (?w\<lparr>console := console ?w @
           map (\<lambda>row. consoleLine (row ! 0) (fst (getCost (row ! 0) ?w))) rows\<rparr>)"
    using Cons.prems by (intro Cons.IH) simp
  finally show ?case by (simp add: c)
qed

text \<open>
  The loop of \<^verbatim>\<open>getCosts\<close> differs from the one of \<^verbatim>\<open>getAllCosts\<close> only in how it ends on a
  read error.
\<close>

lemma getCostsLoop_state:
  "snd (getCostsLoop persist rs w) = snd (getAllCostsLoop persist rs w)"
  by (induction persist rs w rule: getAllCostsLoop.induct) (auto simp: getCost_def split: prod.splits)

lemma getCostsLoop_outcome:
  "fst (getCostsLoop persist rs w) =
     (case fst (getAllCostsLoop persist rs w) of Returned e \<Rightarrow> Exited e | out \<Rightarrow> out)"
  by (induction persist rs w rule: getAllCostsLoop.induct) (auto simp: getCost_def split: prod.splits)

text \<open>The same for the whole function, which starts from an empty result file.\<close>

lemma getAllCosts_export_records:
  assumes "\<forall>row \<in> set rows. row \<noteq> []"
  shows "getAllCosts True (map Record rows @ rest) w =
     getAllCostsLoop True rest
       (w\<lparr>resultFile := concat (map (\<lambda>row. exportLine (row ! 0) (fst (getCost (row ! 0) w))) rows)\<rparr>)"
proof -
  let ?w = "w\<lparr>resultFile := []\<rparr>"
  have c: "fst (getCost n ?w) = fst (getCost n w)" for n
    by (rule getCost_costs_only) simp
  show ?thesis
    using getAllCostsLoop_export [OF assms, of rest ?w] by (simp add: getAllCosts_def c)
qed

lemma getAllCosts_print_records:
  assumes "\<forall>row \<in> set rows. row \<noteq> []"
  shows "getAllCosts False (map Record rows @ rest) w =
     getAllCostsLoop False rest
       (w\<lparr>console := console w @
           map (\<lambda>row. consoleLine (row ! 0) (fst (getCost (row ! 0) w))) rows\<rparr>)"
  using getAllCostsLoop_print [OF assms, of rest w] by (simp add: getAllCosts_def)

lemma getCosts_getAllCosts:
  "getCosts persist rs w =
     (case fst (getAllCosts persist rs w) of Returned e \<Rightarrow> Exited e | out \<Rightarrow> out,
      snd (getAllCosts persist rs w))"
  by (simp add: getCosts_def getAllCosts_def prod_eq_iff getCostsLoop_state getCostsLoop_outcome)

subsection \<open>Order and format of the export\<close>

text \<open>
  Claim C6, as the code has it: for every index and every sequence of numbers
  \<open>n1, \<dots>, nk\<close>, the batch run completes and the result file is exactly the lines
  \<open>ni,ci\<close> in the order of the input, with \<open>ci\<close> the value of \<open>getCost\<close> for \<open>ni\<close>; the
  line is \<open>ni,0\<close> whenever no prefix of \<open>ni\<close> is a key of the index. (A \<open>0\<close> is also
  what a stored cost \<open>0\<close> prints as, so the \<open>0\<close> does not tell the two apart.)
\<close>

theorem batch_export_in_order:
  "getAllCosts True (map numberRecord ns) w =
     (Completed, w\<lparr>resultFile := concat (map (\<lambda>n. exportLine n (fst (getCost n w))) ns)\<rparr>) \<and>
   getCosts True (map numberRecord ns) w = getAllCosts True (map numberRecord ns) w \<and>
   (\<forall>n. (\<forall>q. prefix q n \<longrightarrow> costs w q = None) \<longrightarrow> exportLine n (fst (getCost n w)) = exportLine n ''0'')"
proof -
  let ?rows = "map (\<lambda>n. [n]) ns"
  have rows: "map numberRecord ns = map Record ?rows @ []"
    by (induction ns) (simp_all add: numberRecord_def)
  have ne: "\<forall>row \<in> set ?rows. row \<noteq> []"
    by simp
  have 1: "getAllCosts True (map numberRecord ns) w =
     (Completed, w\<lparr>resultFile := concat (map (\<lambda>n. exportLine n (fst (getCost n w))) ns)\<rparr>)"
    unfolding rows using getAllCosts_export_records [OF ne, of "[]" w] by (simp add: comp_def)
  have 2: "getCosts True (map numberRecord ns) w = getAllCosts True (map numberRecord ns) w"
    by (simp add: getCosts_getAllCosts [of True "map numberRecord ns" w] 1)
  have 3: "exportLine n (fst (getCost n w)) = exportLine n ''0''"
    if "\<forall>q. prefix q n \<longrightarrow> costs w q = None" for n
    using that getCost_no_prefix_stored [of n w] by simp
  show ?thesis
    using 1 2 3 by blast
qed

theorem batch_export_in_order_witness:
  "getAllCosts True (map numberRecord [''+19998887777'', ''+447911123456'', ''+14152345678'']) nestedIndex =
     (Completed, nestedIndex\<lparr>resultFile :=
        ''+19998887777,0.05'' @ [CHR 0x0A] @ ''+447911123456,0'' @ [CHR 0x0A] @ ''+14152345678,0.05'' @ [CHR 0x0A]\<rparr>) \<and>
   exportLine ''+447911123456'' (fst (getCost ''+447911123456'' nestedIndex)) = ''+447911123456,0'' @ [CHR 0x0A]"
proof -
  have h: "\<forall>q. prefix q ''+447911123456'' \<longrightarrow> costs nestedIndex q = None"
    by (auto simp: prefix_Cons nestedIndex_def emptyWorld_def)
  have c: "fst (getCost ''+19998887777'' nestedIndex) = ''0.05''"
    "fst (getCost ''+447911123456'' nestedIndex) = ''0''"
    "fst (getCost ''+14152345678'' nestedIndex) = ''0.05''"
    by (simp_all add: getCost_def nestedIndex_def emptyWorld_def)
  show ?thesis
    using batch_export_in_order [of "[''+19998887777'', ''+447911123456'', ''+14152345678'']" nestedIndex] h
    by (simp add: c exportLine_def)
qed

text \<open>
  The claim as written says that the cost is \<open>0\<close> exactly when no route is found. With the
  route \<open>+1\<close> stored at cost \<open>0\<close>, the number \<open>+1234\<close> has a route and its line is
  \<open>+1234,0\<close> all the same.
\<close>

theorem zero_cost_route_prints_sentinel:
  "costs (emptyWorld\<lparr>costs := [''+1'' \<mapsto> ''0'']\<rparr>) ''+1'' = Some ''0'' \<and>
   prefix ''+1'' ''+1234'' \<and>
   fst (getCost ''+1234'' (emptyWorld\<lparr>costs := [''+1'' \<mapsto> ''0'']\<rparr>)) = ''0'' \<and>
   resultFile (snd (getAllCosts True [numberRecord ''+1234''] (emptyWorld\<lparr>costs := [''+1'' \<mapsto> ''0'']\<rparr>)))
     = ''+1234,0'' @ [CHR 0x0A]"
  by (simp add: getCost_def getAllCosts_def numberRecord_def exportLine_def emptyWorld_def)

subsection \<open>A line the reader rejects\<close>

text \<open>
  Claim C4, as the code has it: every line the reader returns as a record is looked up and
  its result written or printed, in order, whatever its text (a line that is no number
  gets the value \<open>getCost\<close> computes for it, \<open>0\<close> when nothing matches, and the batch
  goes on). At the first line the reader reports an error for, the batch stops: the
  results of the lines before it are kept and the lines after it are not looked up.
  \<^verbatim>\<open>getAllCosts\<close> prints the error and returns, \<^verbatim>\<open>getCosts\<close> ends the process.
\<close>

theorem batch_stops_at_first_read_error:
  "\<forall>row \<in> set rows. row \<noteq> [] \<Longrightarrow>
   getAllCosts True (map Record rows @ ReadError e # rest) w =
     (Returned e, w\<lparr>resultFile :=
        concat (map (\<lambda>row. exportLine (row ! 0) (fst (getCost (row ! 0) w))) rows)\<rparr>) \<and>
   getAllCosts False (map Record rows @ ReadError e # rest) w =
     (Returned e, w\<lparr>console := console w @
        map (\<lambda>row. consoleLine (row ! 0) (fst (getCost (row ! 0) w))) rows\<rparr>) \<and>
   getCosts True (map Record rows @ ReadError e # rest) w =
     (Exited e, w\<lparr>resultFile :=
        concat (map (\<lambda>row. exportLine (row ! 0) (fst (getCost (row ! 0) w))) rows)\<rparr>) \<and>
   getCosts False (map Record rows @ ReadError e # rest) w =
     (Exited e, w\<lparr>console := console w @
        map (\<lambda>row. consoleLine (row ! 0) (fst (getCost (row ! 0) w))) rows\<rparr>)"
  by (simp add: getCosts_getAllCosts getAllCosts_export_records getAllCosts_print_records)

theorem batch_stops_at_first_read_error_witness:
  "getAllCosts True (csvRead None [[''+14152345678''], [''abc''], [''+1999'', ''x''], [''+19998887777'']]) nestedIndex =
     (Returned ''wrong number of fields'', nestedIndex\<lparr>resultFile :=
        ''+14152345678,0.05'' @ [CHR 0x0A] @ ''abc,0'' @ [CHR 0x0A]\<rparr>) \<and>
   getCosts True (csvRead None [[''+14152345678''], [''abc''], [''+1999'', ''x''], [''+19998887777'']]) nestedIndex =
     (Exited ''wrong number of fields'', nestedIndex\<lparr>resultFile :=
        ''+14152345678,0.05'' @ [CHR 0x0A] @ ''abc,0'' @ [CHR 0x0A]\<rparr>)"
proof -
  let ?rows = "[[''+14152345678''], [''abc'']]"
  have h: "\<forall>row \<in> set ?rows. row \<noteq> []" by simp
  have c: "fst (getCost ''+14152345678'' nestedIndex) = ''0.05''" "fst (getCost ''abc'' nestedIndex) = ''0''"
    by (simp_all add: getCost_def nestedIndex_def emptyWorld_def)
  show ?thesis
    using batch_stops_at_first_read_error [OF h, of "''wrong number of fields''" "[Record [''+19998887777'']]" nestedIndex]
    by (simp add: c exportLine_def)
qed

text \<open>
  The claim as written says that the lines after a malformed one are still resolved. On a
  file of three lines whose second line has two fields, the result file holds the first
  line only: the third number is never looked up.
\<close>

theorem batch_abandons_lines_after_error:
  "csvRead None [[''+14152345678''], [''+1999'', ''x''], [''+19998887777'']] =
     [Record [''+14152345678''], ReadError ''wrong number of fields'', Record [''+19998887777'']] \<and>
   getAllCosts True (csvRead None [[''+14152345678''], [''+1999'', ''x''], [''+19998887777'']]) nestedIndex =
     (Returned ''wrong number of fields'', nestedIndex\<lparr>resultFile := ''+14152345678,0.05'' @ [CHR 0x0A]\<rparr>) \<and>
   fst (getCosts True (csvRead None [[''+14152345678''], [''+1999'', ''x''], [''+19998887777'']]) nestedIndex) =
     Exited ''wrong number of fields''"
  by (simp add: getCost_def getAllCosts_def getCosts_def exportLine_def nestedIndex_def emptyWorld_def)

subsection \<open>The example of the README\<close>

text \<open>
  The README loads the carrier file \<open>+1512,0.04 / +1415,0.02 / +1415234,0.03 /
  +1415246,0.01\<close> and resolves \<open>+15124156620\<close>, \<open>+14152345678\<close>, \<open>+19876543210\<close>; it
  gives \<open>0.03\<close> for the second number, "as it matches with the prefixes +1415 and +1415234
  (longest match)". The program writes \<open>0.02\<close> there, the cost of the shorter prefix.
\<close>

lemma readme_example_export:
  "getAllCosts True
     (csvRead None [[''+15124156620''], [''+14152345678''], [''+19876543210'']])
     (snd (loadRouteCosts
        (csvRead None [[''+1512'', ''0.04''], [''+1415'', ''0.02''],
                       [''+1415234'', ''0.03''], [''+1415246'', ''0.01'']])
        emptyWorld)) =
   (Completed,
    \<lparr>costs = [''+1512'' \<mapsto> ''0.04'', ''+1415'' \<mapsto> ''0.02'',
              ''+1415234'' \<mapsto> ''0.03'', ''+1415246'' \<mapsto> ''0.01''],
     resultFile = ''+15124156620,0.04'' @ [CHR 0x0A] @ ''+14152345678,0.02'' @ [CHR 0x0A] @
                  ''+19876543210,0'' @ [CHR 0x0A],
     console = []\<rparr>)"
  by (simp add: getAllCosts_def getCost_def insertRow_def exportLine_def emptyWorld_def)

end
